theory Spec2Isabelle
  imports Main
begin

section \<open>The persisted schema (models.py)\<close>

text \<open>
  The three tables of \<^verbatim>\<open>models.py\<close>, one record per mapped class, one field per
  column. Field names carry a one-letter prefix for the table, since \<open>id\<close> and
  \<open>family_id\<close> occur in several classes. Columns declared without a \<open>nullable\<close>
  restriction and written from request data (\<open>username\<close>, \<open>text\<close>, \<open>is_bought\<close>,
  \<open>category\<close>) are options, \<open>None\<close> being SQL NULL. The keys (\<open>id\<close>, \<open>telegram_id\<close>,
  \<open>family_id\<close>, \<open>invite_code\<close>) are written by every path of \<^verbatim>\<open>main.py\<close> from
  a primary key of a stored row or from a generated string, and are plain values.
\<close>

record Family =
  f_id :: int
  f_invite_code :: string

record User =
  u_telegram_id :: int
  u_username :: "string option"
  u_family_id :: int

record Item =
  i_id :: string
  i_text :: "string option"
  i_is_bought :: "bool option"
  i_category :: "string option"
  i_family_id :: int

text \<open>
  The data store: the rows of each table in storage order (the order of insertion).
\<close>

record store =
  families :: "Family list"
  users :: "User list"
  items :: "Item list"

section \<open>Request and reply types (main.py)\<close>

text \<open>
  Every exception the handlers can end with: the two \<open>HTTPException\<close>s they raise
  themselves (status code and detail), the store's \<open>IntegrityError\<close> for a violated
  primary-key, unique or foreign-key constraint, and Python's \<open>AttributeError\<close> for
  \<open>message.text.split()\<close> on a message without text.
\<close>

datatype error = HTTPException nat string | IntegrityError | AttributeError


record ItemUpdate =
  p_text :: "string option"
  p_is_bought :: "bool option"
  p_category :: "string option"

text \<open>
  A field of a JSON request body is absent, present with the value \<open>null\<close>, or present
  with a value. \<open>ItemUpdate\<close> declares each of its three fields as
  \<open>Optional[...] = None\<close>: an absent field takes the default \<open>None\<close>, and a
  \<open>null\<close> is \<open>None\<close> as well.
\<close>

datatype 'a json_field = Absent | Null | Value 'a

record update_body =
  b_text :: "string json_field"
  b_is_bought :: "bool json_field"
  b_category :: "string json_field"

fun optional :: "'a json_field \<Rightarrow> 'a option" where
  "optional Absent = None"
| "optional Null = None"
| "optional (Value v) = Some v"

definition parse_ItemUpdate :: "update_body \<Rightarrow> ItemUpdate" where
  "parse_ItemUpdate b =
     \<lparr>p_text = optional (b_text b),
      p_is_bought = optional (b_is_bought b),
      p_category = optional (b_category b)\<rparr>"

text \<open>The sender of a bot message and the message, as far as \<open>cmd_start\<close> reads them.\<close>

record from_user =
  tg_id :: int
  tg_username :: "string option"

record Message =
  m_from_user :: "from_user option"
  m_text :: "string option"

text \<open>
  The five replies of \<open>cmd_start\<close>, in the order they appear in the source (the
  source's texts are Russian): joined successfully; already in this family; welcome,
  you have joined the family; wrong invite code; welcome to Lumina Grocer.
\<close>

datatype reply =
  Joined_successfully
| Already_in_family
| Welcome_joined
| Invalid_invite_code
| Welcome_generic

section \<open>Strings\<close>

text \<open>
  \<open>str.startswith\<close>, \<open>str.split()\<close> without arguments (split at runs of whitespace,
  no empty strings in the result) and \<open>str.replace\<close> (every non-overlapping
  occurrence, leftmost first). A string is a list of characters with code points below
  256, and the whitespace characters are those of Python's \<open>str.isspace\<close> in that
  range: tab, line feed, vertical tab, form feed, carriage return, the four separators
  \<open>0x1C\<close> to \<open>0x1F\<close>, space, next line (\<open>0x85\<close>) and no-break space
  (\<open>0xA0\<close>). Code points from 256 on are outside the model; the general facts
  about \<open>cmd_start\<close> below take the words of the text as a hypothesis and do not
  depend on how it is split.
\<close>

fun startswith :: "string \<Rightarrow> string \<Rightarrow> bool" where
  "startswith s [] = True"
| "startswith [] (p # ps) = False"
| "startswith (c # cs) (p # ps) = (c = p \<and> startswith cs ps)"

definition isspace :: "char \<Rightarrow> bool" where
  "isspace c =
     (c \<in> set [CHR 0x09, CHR 0x0A, CHR 0x0B, CHR 0x0C, CHR 0x0D,
                CHR 0x1C, CHR 0x1D, CHR 0x1E, CHR 0x1F, CHR '' '', CHR 0x85, CHR 0xA0])"

fun split_from :: "string \<Rightarrow> string \<Rightarrow> string list" where
  "split_from cur [] = (if cur = [] then [] else [cur])"
| "split_from cur (c # cs) =
     (if isspace c then (if cur = [] then split_from [] cs else cur # split_from [] cs)
      else split_from (cur @ [c]) cs)"

definition str_split :: "string \<Rightarrow> string list" where
  "str_split s = split_from [] s"

fun replace_from :: "string \<Rightarrow> string \<Rightarrow> string \<Rightarrow> string" where
  "replace_from [] old new = []"
| "replace_from (c # cs) old new =
     (if startswith (c # cs) old
      then new @ replace_from (drop (length old - 1) cs) old new
      else c # replace_from cs old new)"

definition str_replace :: "string \<Rightarrow> string \<Rightarrow> string \<Rightarrow> string" where
  "str_replace s old new =
     (if old = [] then foldr (\<lambda>c acc. new @ c # acc) s new
      else replace_from s old new)"

section \<open>The data store\<close>

text \<open>
  The queries of \<^verbatim>\<open>main.py\<close>: \<open>select(...).where(...)\<close> followed by
  \<open>.first()\<close> is the first matching row in storage order, followed by \<open>.all()\<close>
  all matching rows.
\<close>

definition select_user :: "store \<Rightarrow> int \<Rightarrow> User option" where
  "select_user s telegram_id = find (\<lambda>u. u_telegram_id u = telegram_id) (users s)"

definition select_family_by_code :: "store \<Rightarrow> string \<Rightarrow> Family option" where
  "select_family_by_code s code = find (\<lambda>f. f_invite_code f = code) (families s)"


definition select_item :: "store \<Rightarrow> string \<Rightarrow> int \<Rightarrow> Item option" where
  "select_item s item_id family_id =
     find (\<lambda>i. i_id i = item_id \<and> i_family_id i = family_id) (items s)"

text \<open>
  The constraints of \<^verbatim>\<open>models.py\<close>: \<open>families.id\<close>, \<open>users.telegram_id\<close> and
  \<open>items.id\<close> are primary keys, \<open>families.invite_code\<close> is unique, and both
  \<open>family_id\<close> columns are foreign keys to \<open>families.id\<close>. An insert that violates one
  of them raises \<open>IntegrityError\<close>. The store assigns \<open>families.id\<close> itself, from a
  value no row holds: here one more than the largest id present.
\<close>

definition family_exists :: "store \<Rightarrow> int \<Rightarrow> bool" where
  "family_exists s family_id = (family_id \<in> set (map f_id (families s)))"

definition next_family_id :: "store \<Rightarrow> int" where
  "next_family_id s = fold max (map f_id (families s)) 0 + 1"

definition insert_family :: "store \<Rightarrow> string \<Rightarrow> error + (Family \<times> store)" where
  "insert_family s code =
     (if code \<in> set (map f_invite_code (families s)) then Inl IntegrityError
      else let new_family = \<lparr>f_id = next_family_id s, f_invite_code = code\<rparr>
           in Inr (new_family, s\<lparr>families := families s @ [new_family]\<rparr>))"

definition insert_user :: "store \<Rightarrow> User \<Rightarrow> error + store" where
  "insert_user s user =
     (if u_telegram_id user \<in> set (map u_telegram_id (users s))
         \<or> \<not> family_exists s (u_family_id user)
      then Inl IntegrityError
      else Inr (s\<lparr>users := users s @ [user]\<rparr>))"


text \<open>
  The statements the ORM issues at \<open>commit\<close> for a changed or deleted object address
  the row by its primary key.
\<close>

definition update_user_family :: "store \<Rightarrow> int \<Rightarrow> int \<Rightarrow> error + store" where
  "update_user_family s telegram_id family_id =
     (if \<not> family_exists s family_id then Inl IntegrityError
      else Inr (s\<lparr>users :=
             map (\<lambda>u. if u_telegram_id u = telegram_id then u\<lparr>u_family_id := family_id\<rparr> else u)
                 (users s)\<rparr>))"

definition update_item_row :: "store \<Rightarrow> string \<Rightarrow> (Item \<Rightarrow> Item) \<Rightarrow> store" where
  "update_item_row s item_id change =
     s\<lparr>items := map (\<lambda>i. if i_id i = item_id then change i else i) (items s)\<rparr>"


section \<open>The identity resolver and the bot's start command (main.py)\<close>

text \<open>
  \<open>ensure_user_and_family\<close>. The argument \<open>uuid4_hex\<close> is the value of
  \<open>uuid.uuid4().hex\<close> in this call, the only random draw the function makes. The
  result is the returned user or the exception, and the store after the call: an
  exception leaves the session uncommitted, so the store is the one before the call.
\<close>

definition ensure_user_and_family ::
  "store \<Rightarrow> int \<Rightarrow> string option \<Rightarrow> string \<Rightarrow> (error + User) \<times> store" where
  "ensure_user_and_family s telegram_id username uuid4_hex =
     (case select_user s telegram_id of
        Some user \<Rightarrow> (Inr user, s)
      | None \<Rightarrow>
          let invite_code = take 8 uuid4_hex in
          (case insert_family s invite_code of
             Inl e \<Rightarrow> (Inl e, s)
           | Inr (new_family, s1) \<Rightarrow>
               let user = \<lparr>u_telegram_id = telegram_id, u_username = username,
                            u_family_id = f_id new_family\<rparr>
               in (case insert_user s1 user of
                     Inl e \<Rightarrow> (Inl e, s)
                   | Inr s2 \<Rightarrow> (Inr user, s2))))"

text \<open>
  \<open>cmd_start\<close>, the handler of the bot's start command. The result is the
  exception the handler ended with, if any, the replies it sent with
  \<open>message.answer\<close> before, in order, and the store after the call.
\<close>

definition cmd_start :: "store \<Rightarrow> Message \<Rightarrow> string \<Rightarrow> error option \<times> reply list \<times> store" where
  "cmd_start s message uuid4_hex =
     (case m_from_user message of
        None \<Rightarrow> (None, [], s)
      | Some sender \<Rightarrow>
         (case m_text message of
            None \<Rightarrow> (Some AttributeError, [], s)
          | Some text \<Rightarrow>
             let args = str_split text;
                 invite_code = (if length args > 1 then Some (args ! 1) else None);
                 telegram_id = tg_id sender;
                 username = tg_username sender;
                 normal_init =
                   (case ensure_user_and_family s telegram_id username uuid4_hex of
                      (Inl e, s') \<Rightarrow> (Some e, [], s')
                    | (Inr user, s') \<Rightarrow> (None, [Welcome_generic], s'))
             in (case invite_code of
                   None \<Rightarrow> normal_init
                 | Some arg \<Rightarrow>
                     if arg \<noteq> [] \<and> startswith arg ''invite_'' then
                       let code = str_replace arg ''invite_'' '''' in
                       (case select_family_by_code s code of
                          Some family \<Rightarrow>
                            (case select_user s telegram_id of
                               Some user \<Rightarrow>
                                 if u_family_id user \<noteq> f_id family then
                                   (case update_user_family s telegram_id (f_id family) of
                                      Inl e \<Rightarrow> (Some e, [], s)
                                    | Inr s' \<Rightarrow> (None, [Joined_successfully], s'))
                                 else (None, [Already_in_family], s)
                             | None \<Rightarrow>
                                 let user = \<lparr>u_telegram_id = telegram_id, u_username = username,
                                              u_family_id = f_id family\<rparr>
                                 in (case insert_user s user of
                                       Inl e \<Rightarrow> (Some e, [], s)
                                     | Inr s' \<Rightarrow> (None, [Welcome_joined], s')))
                        | None \<Rightarrow>
                            (case ensure_user_and_family s telegram_id username uuid4_hex of
                               (Inl e, s') \<Rightarrow> (Some e, [Invalid_invite_code], s')
                             | (Inr user, s') \<Rightarrow> (None, [Invalid_invite_code], s')))
                     else normal_init)))"

section \<open>The item endpoints (main.py)\<close>



definition apply_updates :: "ItemUpdate \<Rightarrow> Item \<Rightarrow> Item" where
  "apply_updates updates item =
     (let item1 = (case p_text updates of None \<Rightarrow> item | Some v \<Rightarrow> item\<lparr>i_text := Some v\<rparr>);
          item2 = (case p_is_bought updates of None \<Rightarrow> item1
                   | Some v \<Rightarrow> item1\<lparr>i_is_bought := Some v\<rparr>);
          item3 = (case p_category updates of None \<Rightarrow> item2
                   | Some v \<Rightarrow> item2\<lparr>i_category := Some v\<rparr>)
      in item3)"

definition update_item :: "store \<Rightarrow> string \<Rightarrow> ItemUpdate \<Rightarrow> int \<Rightarrow> (error + Item) \<times> store" where
  "update_item s item_id updates telegram_id =
     (case select_user s telegram_id of
        None \<Rightarrow> (Inl (HTTPException 404 ''User not found''), s)
      | Some user \<Rightarrow>
          (case select_item s item_id (u_family_id user) of
             None \<Rightarrow> (Inl (HTTPException 404 ''Item not found''), s)
           | Some item \<Rightarrow>
               (Inr (apply_updates updates item),
                update_item_row s (i_id item) (apply_updates updates))))"


section \<open>Sequences of requests\<close>


section \<open>Example data\<close>

text \<open>
  Two families with one member each, and four creates, two by each member, interleaved.
\<close>

definition two_families :: store where
  "two_families =
     \<lparr>families = [\<lparr>f_id = 1, f_invite_code = ''0a1b2c3d''\<rparr>,
                  \<lparr>f_id = 2, f_invite_code = ''deadbeef''\<rparr>],
      users = [\<lparr>u_telegram_id = 100, u_username = Some ''ann'', u_family_id = 1\<rparr>,
               \<lparr>u_telegram_id = 200, u_username = None, u_family_id = 2\<rparr>],
      items = []\<rparr>"


text \<open>
  One family and its only member; the store the collision and the invite examples start
  from.
\<close>

definition lone_family :: store where
  "lone_family =
     \<lparr>families = [\<lparr>f_id = 1, f_invite_code = ''deadbeef''\<rparr>],
      users = [\<lparr>u_telegram_id = 100, u_username = Some ''ann'', u_family_id = 1\<rparr>],
      items = []\<rparr>"

text \<open>
  The two families again, the second one owning an item. A stranger to both families
  with the id 300.
\<close>

definition with_item :: store where
  "with_item =
     two_families\<lparr>items :=
       [\<lparr>i_id = ''x1'', i_text = Some ''Milk'', i_is_bought = Some False,
         i_category = Some ''dairy'', i_family_id = 2\<rparr>]\<rparr>"

definition stranger :: from_user where
  "stranger = \<lparr>tg_id = 300, tg_username = Some ''bob''\<rparr>"

definition start_message :: "string \<Rightarrow> Message" where
  "start_message text = \<lparr>m_from_user = Some stranger, m_text = Some text\<rparr>"

section \<open>Auxiliary facts\<close>

subsection \<open>Strings\<close>

lemma split_from_word:
  "\<forall>c \<in> set w. \<not> isspace c \<Longrightarrow> split_from cur (w @ rest) = split_from (cur @ w) rest"
  by (induction w arbitrary: cur) simp_all

lemma str_split_two_words:
  assumes "\<forall>c \<in> set cmd. \<not> isspace c" and "cmd \<noteq> []"
    and "\<forall>c \<in> set arg. \<not> isspace c" and "arg \<noteq> []"
  shows "str_split (cmd @ '' '' @ arg) = [cmd, arg]"
proof -
  have "split_from [] (cmd @ '' '' @ arg) = split_from cmd ('' '' @ arg)"
    using split_from_word [OF assms(1), of "[]"] by simp
  also have "\<dots> = cmd # split_from [] arg"
    using assms(2) by (simp add: isspace_def)
  also have "split_from [] arg = [arg]"
    using split_from_word [OF assms(3), of "[]" "[]"] assms(4) by simp
  finally show ?thesis by (simp add: str_split_def)
qed

lemma replace_from_no_occurrence:
  "\<forall>n \<le> length s. \<not> startswith (drop n s) old \<Longrightarrow> replace_from s old new = s"
proof (induction s)
  case Nil
  show ?case by simp
next
  case (Cons c cs)
  from Cons.prems have here: "\<not> startswith (c # cs) old"
    by (metis drop0 le0)
  have "\<forall>n \<le> length cs. \<not> startswith (drop n cs) old"
  proof (intro allI impI)
    fix n
    assume "n \<le> length cs"
    then have "Suc n \<le> length (c # cs)" by simp
    with Cons.prems have "\<not> startswith (drop (Suc n) (c # cs)) old" by blast
    then show "\<not> startswith (drop n cs) old" by simp
  qed
  with Cons.IH here show ?case by simp
qed

lemma marker_prefix_removed:
  "str_replace (''invite_'' @ code) ''invite_'' '''' = str_replace code ''invite_'' ''''"
  by (simp add: str_replace_def)

lemma marker_free_code_kept:
  assumes "\<forall>n \<le> length code. \<not> startswith (drop n code) ''invite_''"
  shows "str_replace (''invite_'' @ code) ''invite_'' '''' = code"
  using replace_from_no_occurrence [OF assms, of "''''"]
  by (simp add: str_replace_def)

subsection \<open>First match in a list\<close>

lemma find_Some_mem: "find P xs = Some x \<Longrightarrow> x \<in> set xs \<and> P x"
  by (induction xs) (auto split: if_splits)

lemma find_append:
  "find P (xs @ ys) = (case find P xs of None \<Rightarrow> find P ys | Some x \<Rightarrow> Some x)"
  by (induction xs) auto

lemma find_map_same:
  assumes "\<And>x. P (f x) = P x"
  shows "find P (map f xs) = map_option f (find P xs)"
  by (induction xs) (auto simp: assms)

subsection \<open>The store\<close>

lemma fold_max_bounds:
  fixes a :: int
  shows "a \<le> fold max xs a \<and> (\<forall>x \<in> set xs. x \<le> fold max xs a)"
proof (induction xs arbitrary: a)
  case Nil
  show ?case by simp
next
  case (Cons y ys)
  from Cons [of "max y a"] show ?case by auto
qed

lemma next_family_id_fresh: "next_family_id s \<notin> set (map f_id (families s))"
proof
  assume "next_family_id s \<in> set (map f_id (families s))"
  then have "next_family_id s \<le> fold max (map f_id (families s)) 0"
    using fold_max_bounds [of 0 "map f_id (families s)"] by blast
  then show False by (simp add: next_family_id_def)
qed

lemma select_user_None:
  "select_user s t = None \<longleftrightarrow> t \<notin> set (map u_telegram_id (users s))"
  by (auto simp: select_user_def find_None_iff)


lemma select_item_Some:
  "select_item s item_id fid = Some item \<Longrightarrow>
     item \<in> set (items s) \<and> i_id item = item_id \<and> i_family_id item = fid"
  by (auto simp: select_item_def dest: find_Some_mem)





subsection \<open>The three outcomes of the identity resolver\<close>

lemma ensure_existing:
  "select_user s t = Some user \<Longrightarrow> ensure_user_and_family s t un g = (Inr user, s)"
  by (simp add: ensure_user_and_family_def)

lemma ensure_collision:
  "select_user s t = None \<Longrightarrow> take 8 g \<in> set (map f_invite_code (families s)) \<Longrightarrow>
   ensure_user_and_family s t un g = (Inl IntegrityError, s)"
  by (simp add: ensure_user_and_family_def insert_family_def)

lemma ensure_new:
  assumes "select_user s t = None" "take 8 g \<notin> set (map f_invite_code (families s))"
  shows "ensure_user_and_family s t un g =
           (Inr \<lparr>u_telegram_id = t, u_username = un, u_family_id = next_family_id s\<rparr>,
            s\<lparr>families := families s @ [\<lparr>f_id = next_family_id s, f_invite_code = take 8 g\<rparr>],
              users := users s @
                [\<lparr>u_telegram_id = t, u_username = un, u_family_id = next_family_id s\<rparr>]\<rparr>)"
proof -
  have "t \<notin> set (map u_telegram_id (users s))"
    using assms(1) by (simp add: select_user_None)
  with assms show ?thesis
    by (simp add: ensure_user_and_family_def insert_family_def insert_user_def Let_def
          family_exists_def)
qed

lemma select_user_appended:
  "select_user s t = None \<Longrightarrow> u_telegram_id u = t \<Longrightarrow>
   select_user (s\<lparr>families := fs, users := users s @ [u]\<rparr>) t = Some u"
  by (simp add: select_user_def find_append)

subsection \<open>The start command with an invite argument\<close>

lemma cmd_start_invite:
  assumes "m_from_user message = Some sender" and "m_text message = Some text"
    and "str_split text = cmd # arg # rest" and "startswith arg ''invite_''"
  shows "cmd_start s message uuid4_hex =
     (case select_family_by_code s (str_replace arg ''invite_'' '''') of
        Some family \<Rightarrow>
          (case select_user s (tg_id sender) of
             Some user \<Rightarrow>
               if u_family_id user \<noteq> f_id family then
                 (case update_user_family s (tg_id sender) (f_id family) of
                    Inl e \<Rightarrow> (Some e, [], s)
                  | Inr s' \<Rightarrow> (None, [Joined_successfully], s'))
               else (None, [Already_in_family], s)
           | None \<Rightarrow>
               (case insert_user s \<lparr>u_telegram_id = tg_id sender,
                                     u_username = tg_username sender,
                                     u_family_id = f_id family\<rparr> of
                  Inl e \<Rightarrow> (Some e, [], s)
                | Inr s' \<Rightarrow> (None, [Welcome_joined], s')))
      | None \<Rightarrow>
          (case ensure_user_and_family s (tg_id sender) (tg_username sender) uuid4_hex of
             (Inl e, s') \<Rightarrow> (Some e, [Invalid_invite_code], s')
           | (Inr user, s') \<Rightarrow> (None, [Invalid_invite_code], s')))"
proof -
  from assms(4) have "arg \<noteq> []" by auto
  with assms show ?thesis
    by (simp add: cmd_start_def Let_def split: option.splits)
qed

subsection \<open>Creating and updating items\<close>




lemma apply_updates_keys [simp]:
  "i_id (apply_updates updates item) = i_id item"
  "i_family_id (apply_updates updates item) = i_family_id item"
  by (simp_all add: apply_updates_def Let_def split: option.splits)

lemma apply_updates_fields:
  "i_text (apply_updates updates item) =
     (case p_text updates of None \<Rightarrow> i_text item | Some v \<Rightarrow> Some v)"
  "i_is_bought (apply_updates updates item) =
     (case p_is_bought updates of None \<Rightarrow> i_is_bought item | Some v \<Rightarrow> Some v)"
  "i_category (apply_updates updates item) =
     (case p_category updates of None \<Rightarrow> i_category item | Some v \<Rightarrow> Some v)"
  by (simp_all add: apply_updates_def Let_def split: option.splits)

lemma apply_updates_empty:
  "apply_updates \<lparr>p_text = None, p_is_bought = None, p_category = None\<rparr> item = item"
  by (simp add: apply_updates_def)

lemma update_item_found:
  assumes "select_user s telegram_id = Some user"
    and "select_item s item_id (u_family_id user) = Some item"
  shows "update_item s item_id updates telegram_id =
           (Inr (apply_updates updates item),
            s\<lparr>items := map (\<lambda>i. if i_id i = item_id then apply_updates updates i else i)
                            (items s)\<rparr>)"
  using assms select_item_Some [OF assms(2)]
  by (simp add: update_item_def update_item_row_def)

lemma select_item_after_update:
  assumes "select_item s item_id fid = Some item"
  shows "select_item
           (s\<lparr>items := map (\<lambda>i. if i_id i = item_id then apply_updates updates i else i)
                           (items s)\<rparr>) item_id fid =
         Some (apply_updates updates item)"
proof -
  let ?P = "\<lambda>i. i_id i = item_id \<and> i_family_id i = fid"
  let ?f = "\<lambda>i. if i_id i = item_id then apply_updates updates i else i"
  have "\<And>i. ?P (?f i) = ?P i" by simp
  then have "find ?P (map ?f (items s)) = map_option ?f (find ?P (items s))"
    by (rule find_map_same)
  with assms select_item_Some [OF assms] show ?thesis
    by (simp add: select_item_def)
qed

lemma items_after_update:
  "items (snd (update_item s item_id updates telegram_id)) = items s \<or>
   items (snd (update_item s item_id updates telegram_id)) =
     map (\<lambda>i. if i_id i = item_id then apply_updates updates i else i) (items s)"
proof (cases "select_user s telegram_id")
  case None
  then show ?thesis by (simp add: update_item_def)
next
  case (Some user)
  show ?thesis
  proof (cases "select_item s item_id (u_family_id user)")
    case None
    with Some show ?thesis by (simp add: update_item_def)
  next
    case (Some item)
    with \<open>select_user s telegram_id = Some user\<close> show ?thesis
      by (simp add: update_item_found)
  qed
qed

section \<open>The claims\<close>

subsection \<open>C1: the list is scoped to the caller's family\<close>



subsection \<open>C2: resolving an external id twice\<close>

text \<open>
  Claim C2, as amended. If a user with the external id exists, \<open>ensure_user_and_family\<close>
  returns it and the store is unchanged. Otherwise, provided the first eight characters
  of the generated uuid are not already the invite code of a family, it appends exactly
  one family (with an id no family had) and exactly one user with this external id
  referencing that family, and changes nothing else; any later call for the same id, with
  any username and any generated uuid, returns that user and leaves the store as it is.
\<close>

theorem ensure_user_and_family_idempotent:
  "(\<forall>user. select_user s telegram_id = Some user \<longrightarrow>
      ensure_user_and_family s telegram_id username uuid4_hex = (Inr user, s)) \<and>
   (select_user s telegram_id = None \<and>
    take 8 uuid4_hex \<notin> set (map f_invite_code (families s)) \<longrightarrow>
      (\<exists>new_family user.
         ensure_user_and_family s telegram_id username uuid4_hex =
           (Inr user, s\<lparr>families := families s @ [new_family], users := users s @ [user]\<rparr>) \<and>
         f_id new_family \<notin> set (map f_id (families s)) \<and>
         u_telegram_id user = telegram_id \<and>
         u_family_id user = f_id new_family \<and>
         (\<forall>username' uuid4_hex'.
            ensure_user_and_family
              (s\<lparr>families := families s @ [new_family], users := users s @ [user]\<rparr>)
              telegram_id username' uuid4_hex' =
            (Inr user, s\<lparr>families := families s @ [new_family], users := users s @ [user]\<rparr>))))"
proof (intro conjI allI impI)
  fix user
  assume "select_user s telegram_id = Some user"
  then show "ensure_user_and_family s telegram_id username uuid4_hex = (Inr user, s)"
    by (rule ensure_existing)
next
  assume unknown: "select_user s telegram_id = None \<and>
    take 8 uuid4_hex \<notin> set (map f_invite_code (families s))"
  let ?f = "\<lparr>f_id = next_family_id s, f_invite_code = take 8 uuid4_hex\<rparr>"
  let ?u = "\<lparr>u_telegram_id = telegram_id, u_username = username,
             u_family_id = next_family_id s\<rparr>"
  let ?s' = "s\<lparr>families := families s @ [?f], users := users s @ [?u]\<rparr>"
  have first: "ensure_user_and_family s telegram_id username uuid4_hex = (Inr ?u, ?s')"
    using unknown by (simp add: ensure_new)
  have fresh: "f_id ?f \<notin> set (map f_id (families s))"
    using next_family_id_fresh [of s] by simp
  have "select_user ?s' telegram_id = Some ?u"
    using unknown by (simp add: select_user_appended)
  then have second: "\<forall>username' uuid4_hex'.
     ensure_user_and_family ?s' telegram_id username' uuid4_hex' = (Inr ?u, ?s')"
    by (simp add: ensure_existing)
  show "\<exists>new_family user.
         ensure_user_and_family s telegram_id username uuid4_hex =
           (Inr user, s\<lparr>families := families s @ [new_family], users := users s @ [user]\<rparr>) \<and>
         f_id new_family \<notin> set (map f_id (families s)) \<and>
         u_telegram_id user = telegram_id \<and>
         u_family_id user = f_id new_family \<and>
         (\<forall>username' uuid4_hex'.
            ensure_user_and_family
              (s\<lparr>families := families s @ [new_family], users := users s @ [user]\<rparr>)
              telegram_id username' uuid4_hex' =
            (Inr user, s\<lparr>families := families s @ [new_family], users := users s @ [user]\<rparr>))"
    apply (rule exI [of _ ?f], rule exI [of _ ?u])
    using first fresh second by simp
qed

theorem ensure_user_and_family_idempotent_witness:
  "select_user lone_family 100 =
     Some \<lparr>u_telegram_id = 100, u_username = Some ''ann'', u_family_id = 1\<rparr> \<and>
   ensure_user_and_family lone_family 100 None ''0f1e2d3c4b5a49788796a5b4c3d2e1f0'' =
     (Inr \<lparr>u_telegram_id = 100, u_username = Some ''ann'', u_family_id = 1\<rparr>, lone_family) \<and>
   select_user lone_family 300 = None \<and>
   take 8 ''0f1e2d3c4b5a49788796a5b4c3d2e1f0'' \<notin> set (map f_invite_code (families lone_family)) \<and>
   (\<exists>new_family user.
      ensure_user_and_family lone_family 300 (Some ''bob'') ''0f1e2d3c4b5a49788796a5b4c3d2e1f0'' =
        (Inr user, lone_family\<lparr>families := families lone_family @ [new_family],
                               users := users lone_family @ [user]\<rparr>) \<and>
      u_family_id user = f_id new_family \<and>
      ensure_user_and_family
        (lone_family\<lparr>families := families lone_family @ [new_family],
                     users := users lone_family @ [user]\<rparr>)
        300 (Some ''bob'') ''deadbeef0123456789abcdef01234567'' =
      (Inr user, lone_family\<lparr>families := families lone_family @ [new_family],
                             users := users lone_family @ [user]\<rparr>))"
proof -
  have known: "select_user lone_family 100 =
      Some \<lparr>u_telegram_id = 100, u_username = Some ''ann'', u_family_id = 1\<rparr>"
    by (simp add: select_user_def lone_family_def)
  have unknown: "select_user lone_family 300 = None"
    by (simp add: select_user_def lone_family_def)
  have free: "take 8 ''0f1e2d3c4b5a49788796a5b4c3d2e1f0'' \<notin>
      set (map f_invite_code (families lone_family))"
    by (simp add: lone_family_def)
  from ensure_user_and_family_idempotent
         [of lone_family 100 None "''0f1e2d3c4b5a49788796a5b4c3d2e1f0''"] known
  have returned: "ensure_user_and_family lone_family 100 None ''0f1e2d3c4b5a49788796a5b4c3d2e1f0'' =
      (Inr \<lparr>u_telegram_id = 100, u_username = Some ''ann'', u_family_id = 1\<rparr>, lone_family)"
    by blast
  from ensure_user_and_family_idempotent
         [of lone_family 300 "Some ''bob''" "''0f1e2d3c4b5a49788796a5b4c3d2e1f0''"] unknown free
  obtain new_family user where
    "ensure_user_and_family lone_family 300 (Some ''bob'') ''0f1e2d3c4b5a49788796a5b4c3d2e1f0'' =
       (Inr user, lone_family\<lparr>families := families lone_family @ [new_family],
                              users := users lone_family @ [user]\<rparr>)"
    "u_family_id user = f_id new_family"
    "\<forall>username' uuid4_hex'.
       ensure_user_and_family
         (lone_family\<lparr>families := families lone_family @ [new_family],
                      users := users lone_family @ [user]\<rparr>)
         300 username' uuid4_hex' =
       (Inr user, lone_family\<lparr>families := families lone_family @ [new_family],
                              users := users lone_family @ [user]\<rparr>)"
    by blast
  with known unknown free returned show ?thesis by blast
qed

text \<open>
  Claim C2 as it is written fails where the generated code is already taken: the
  caller 300 is unknown, the uuid starts with the invite code of the family in the
  store, and the call ends with \<open>IntegrityError\<close> and creates neither a family nor a
  user.
\<close>

theorem ensure_user_and_family_collision_counterexample:
  "select_user lone_family 300 = None \<and>
   ensure_user_and_family lone_family 300 (Some ''bob'') ''deadbeef0123456789abcdef01234567'' =
     (Inl IntegrityError, lone_family)"
  by (simp add: ensure_user_and_family_def insert_family_def select_user_def lone_family_def)

subsection \<open>C3: another family's item is not found\<close>



subsection \<open>C4: a partial update touches only the fields it carries\<close>

text \<open>
  Claim C4. For a caller with a user row and an item of the caller's family,
  \<open>PUT /items/{item_id}\<close> succeeds; a field absent from the body keeps its value, a
  field present with a value takes it, and the id and the family of the item stay. The
  row the store holds afterwards is the one returned, the rows with another id and the
  other two tables are untouched. An empty body returns the item as it was and leaves
  the whole store unchanged.
\<close>

theorem update_item_partial:
  assumes "select_user s telegram_id = Some user"
    and "select_item s item_id (u_family_id user) = Some item"
  shows "\<exists>item' s'.
           update_item s item_id (parse_ItemUpdate body) telegram_id = (Inr item', s') \<and>
           (b_text body = Absent \<longrightarrow> i_text item' = i_text item) \<and>
           (b_is_bought body = Absent \<longrightarrow> i_is_bought item' = i_is_bought item) \<and>
           (b_category body = Absent \<longrightarrow> i_category item' = i_category item) \<and>
           (\<forall>v. b_text body = Value v \<longrightarrow> i_text item' = Some v) \<and>
           (\<forall>v. b_is_bought body = Value v \<longrightarrow> i_is_bought item' = Some v) \<and>
           (\<forall>v. b_category body = Value v \<longrightarrow> i_category item' = Some v) \<and>
           i_id item' = i_id item \<and> i_family_id item' = i_family_id item \<and>
           select_item s' item_id (u_family_id user) = Some item' \<and>
           families s' = families s \<and> users s' = users s \<and>
           length (items s') = length (items s) \<and>
           (\<forall>n < length (items s). i_id (items s ! n) \<noteq> item_id \<longrightarrow> items s' ! n = items s ! n) \<and>
           update_item s item_id
             (parse_ItemUpdate \<lparr>b_text = Absent, b_is_bought = Absent, b_category = Absent\<rparr>)
             telegram_id = (Inr item, s)"
proof -
  let ?u = "parse_ItemUpdate body"
  let ?s' = "s\<lparr>items := map (\<lambda>i. if i_id i = item_id then apply_updates ?u i else i)
                            (items s)\<rparr>"
  have ran: "update_item s item_id ?u telegram_id = (Inr (apply_updates ?u item), ?s')"
    using assms by (rule update_item_found)
  have stored: "select_item ?s' item_id (u_family_id user) = Some (apply_updates ?u item)"
    using assms(2) by (rule select_item_after_update)
  have fields:
    "b_text body = Absent \<longrightarrow> i_text (apply_updates ?u item) = i_text item"
    "b_is_bought body = Absent \<longrightarrow> i_is_bought (apply_updates ?u item) = i_is_bought item"
    "b_category body = Absent \<longrightarrow> i_category (apply_updates ?u item) = i_category item"
    "\<forall>v. b_text body = Value v \<longrightarrow> i_text (apply_updates ?u item) = Some v"
    "\<forall>v. b_is_bought body = Value v \<longrightarrow> i_is_bought (apply_updates ?u item) = Some v"
    "\<forall>v. b_category body = Value v \<longrightarrow> i_category (apply_updates ?u item) = Some v"
    by (simp_all add: apply_updates_fields parse_ItemUpdate_def)
  have empty: "update_item s item_id
      (parse_ItemUpdate \<lparr>b_text = Absent, b_is_bought = Absent, b_category = Absent\<rparr>)
      telegram_id = (Inr item, s)"
    using update_item_found [OF assms]
    by (simp add: parse_ItemUpdate_def apply_updates_empty cong: if_cong)
  have others: "\<forall>n < length (items s). i_id (items s ! n) \<noteq> item_id \<longrightarrow>
      items ?s' ! n = items s ! n"
    by simp
  show ?thesis
    apply (rule exI [of _ "apply_updates ?u item"], rule exI [of _ ?s'])
    using ran stored fields empty others by simp
qed

theorem update_item_partial_witness:
  "select_user with_item 200 =
     Some \<lparr>u_telegram_id = 200, u_username = None, u_family_id = 2\<rparr> \<and>
   select_item with_item ''x1'' 2 =
     Some \<lparr>i_id = ''x1'', i_text = Some ''Milk'', i_is_bought = Some False,
           i_category = Some ''dairy'', i_family_id = 2\<rparr> \<and>
   (\<exists>item' s'.
      update_item with_item ''x1''
        (parse_ItemUpdate \<lparr>b_text = Absent, b_is_bought = Value True, b_category = Absent\<rparr>)
        200 = (Inr item', s') \<and>
      i_text item' = Some ''Milk'' \<and> i_is_bought item' = Some True \<and>
      i_category item' = Some ''dairy'' \<and>
      select_item s' ''x1'' 2 = Some item') \<and>
   update_item with_item ''x1''
     (parse_ItemUpdate \<lparr>b_text = Absent, b_is_bought = Absent, b_category = Absent\<rparr>) 200 =
     (Inr \<lparr>i_id = ''x1'', i_text = Some ''Milk'', i_is_bought = Some False,
           i_category = Some ''dairy'', i_family_id = 2\<rparr>, with_item)"
proof -
  let ?milk = "\<lparr>i_id = ''x1'', i_text = Some ''Milk'', i_is_bought = Some False,
                 i_category = Some ''dairy'', i_family_id = 2\<rparr>"
  let ?caller = "\<lparr>u_telegram_id = 200, u_username = None, u_family_id = 2\<rparr>"
  have caller: "select_user with_item 200 = Some ?caller"
    by (simp add: select_user_def with_item_def two_families_def)
  have "select_item with_item ''x1'' 2 = Some ?milk"
    by (simp add: select_item_def with_item_def)
  then have target: "select_item with_item ''x1'' (u_family_id ?caller) = Some ?milk"
    by simp
  from update_item_partial [OF caller target,
      of "\<lparr>b_text = Absent, b_is_bought = Value True, b_category = Absent\<rparr>"]
    caller target
  show ?thesis by auto
qed

subsection \<open>C5: joining twice with the same code\<close>



subsection \<open>C6: a created item belongs to the caller's family\<close>



subsection \<open>C7: an unknown invite code\<close>

text \<open>
  Claim C7 asks that a join with an invite code that matches no family replies
  \<open>wrong invite code\<close>, falls back to \<open>ensure_user_and_family\<close> and changes no
  row of the families or the users that was there. \<open>cmd_start\<close> looks the family up
  with the argument from which \<open>str.replace\<close> has removed every occurrence of the
  marker, not only the one at the front. The member 200 of the second family sends the
  argument \<open>invite_0a1binvite_2c3d\<close>: its code \<open>0a1binvite_2c3d\<close> is the invite
  code of no family, the lookup is made with \<open>0a1b2c3d\<close>, the code of the first
  family, and the handler moves the sender's user row to that family and replies
  \<open>joined successfully\<close>; no \<open>wrong invite code\<close> is sent.
\<close>

theorem cmd_start_unknown_code_joins:
  "str_split ''/start invite_0a1binvite_2c3d'' = [''/start'', ''invite_0a1binvite_2c3d''] \<and>
   select_family_by_code two_families ''0a1binvite_2c3d'' = None \<and>
   str_replace ''invite_0a1binvite_2c3d'' ''invite_'' '''' = ''0a1b2c3d'' \<and>
   select_user two_families 200 =
     Some \<lparr>u_telegram_id = 200, u_username = None, u_family_id = 2\<rparr> \<and>
   cmd_start two_families
     \<lparr>m_from_user = Some \<lparr>tg_id = 200, tg_username = None\<rparr>,
      m_text = Some ''/start invite_0a1binvite_2c3d''\<rparr>
     ''0f1e2d3c4b5a49788796a5b4c3d2e1f0'' =
     (None, [Joined_successfully],
      two_families\<lparr>users :=
        [\<lparr>u_telegram_id = 100, u_username = Some ''ann'', u_family_id = 1\<rparr>,
         \<lparr>u_telegram_id = 200, u_username = None, u_family_id = 1\<rparr>]\<rparr>)"
proof -
  have words: "str_split ''/start invite_0a1binvite_2c3d'' =
      [''/start'', ''invite_0a1binvite_2c3d'']"
    by (simp add: str_split_def isspace_def)
  have nobody: "select_family_by_code two_families ''0a1binvite_2c3d'' = None"
    by (simp add: select_family_by_code_def two_families_def)
  have code: "str_replace ''invite_0a1binvite_2c3d'' ''invite_'' '''' = ''0a1b2c3d''"
    by (simp add: str_replace_def)
  have member: "select_user two_families 200 =
      Some \<lparr>u_telegram_id = 200, u_username = None, u_family_id = 2\<rparr>"
    by (simp add: select_user_def two_families_def)
  have moved: "cmd_start two_families
      \<lparr>m_from_user = Some \<lparr>tg_id = 200, tg_username = None\<rparr>,
       m_text = Some ''/start invite_0a1binvite_2c3d''\<rparr>
      ''0f1e2d3c4b5a49788796a5b4c3d2e1f0'' =
      (None, [Joined_successfully],
       two_families\<lparr>users :=
         [\<lparr>u_telegram_id = 100, u_username = Some ''ann'', u_family_id = 1\<rparr>,
          \<lparr>u_telegram_id = 200, u_username = None, u_family_id = 1\<rparr>]\<rparr>)"
    by (simp add: cmd_start_def two_families_def str_split_def isspace_def str_replace_def
          select_family_by_code_def select_user_def update_user_family_def
          family_exists_def Let_def)
  from words nobody code member moved show ?thesis by simp
qed

text \<open>
  What does hold is a statement about the key the handler looks up, the second word
  with every occurrence of the marker removed (for a code in which the marker does not
  occur, the code itself: \<open>marker_free_code_kept\<close>). When that key is the invite code of
  no family, the handler replies \<open>wrong invite code\<close> and then does what
  \<open>ensure_user_and_family\<close> does for the sender: the store afterwards is the one that
  call leaves. The rows of the families and the users that were there are all still
  there, unchanged and in their places, at most one family and one user are appended,
  the items are untouched, and for a sender who already has a user row nothing is
  written at all.
\<close>

lemma unknown_code_falls_back:
  assumes "m_from_user message = Some sender" and "m_text message = Some text"
    and "str_split text = cmd # arg # rest" and "startswith arg ''invite_''"
    and "select_family_by_code s (str_replace arg ''invite_'' '''') = None"
  shows "\<exists>failure s' new_families new_users.
           cmd_start s message uuid4_hex = (failure, [Invalid_invite_code], s') \<and>
           s' = snd (ensure_user_and_family s (tg_id sender) (tg_username sender) uuid4_hex) \<and>
           families s' = families s @ new_families \<and>
           users s' = users s @ new_users \<and>
           items s' = items s \<and>
           length new_families \<le> 1 \<and> length new_users \<le> 1 \<and>
           (select_user s (tg_id sender) \<noteq> None \<longrightarrow> s' = s \<and> failure = None)"
proof -
  let ?t = "tg_id sender"
  let ?r = "ensure_user_and_family s ?t (tg_username sender) uuid4_hex"
  have start: "cmd_start s message uuid4_hex =
      (case ?r of (Inl e, s') \<Rightarrow> (Some e, [Invalid_invite_code], s')
               | (Inr user, s') \<Rightarrow> (None, [Invalid_invite_code], s'))"
    using assms(5) by (simp add: cmd_start_invite [OF assms(1-4)])
  show ?thesis
  proof (cases "select_user s ?t")
    case (Some user)
    then have "?r = (Inr user, s)" by (rule ensure_existing)
    with start Some show ?thesis by simp
  next
    case None
    show ?thesis
    proof (cases "take 8 uuid4_hex \<in> set (map f_invite_code (families s))")
      case True
      with None have "?r = (Inl IntegrityError, s)" by (rule ensure_collision)
      with start None show ?thesis by simp
    next
      case False
      let ?f = "\<lparr>f_id = next_family_id s, f_invite_code = take 8 uuid4_hex\<rparr>"
      let ?u = "\<lparr>u_telegram_id = ?t, u_username = tg_username sender,
                 u_family_id = next_family_id s\<rparr>"
      from None False have "?r = (Inr ?u, s\<lparr>families := families s @ [?f],
                                              users := users s @ [?u]\<rparr>)"
        by (rule ensure_new)
      with start None show ?thesis by simp
    qed
  qed
qed

lemma unknown_code_falls_back_example:
  "m_from_user (start_message ''/start invite_cafebabe'') =
     Some \<lparr>tg_id = 300, tg_username = Some ''bob''\<rparr> \<and>
   str_split ''/start invite_cafebabe'' = [''/start'', ''invite_cafebabe''] \<and>
   startswith ''invite_cafebabe'' ''invite_'' \<and>
   select_family_by_code two_families (str_replace ''invite_cafebabe'' ''invite_'' '''') = None \<and>
   (\<exists>failure s' new_families new_users.
      cmd_start two_families (start_message ''/start invite_cafebabe'')
        ''0f1e2d3c4b5a49788796a5b4c3d2e1f0'' = (failure, [Invalid_invite_code], s') \<and>
      families s' = families two_families @ new_families \<and>
      users s' = users two_families @ new_users \<and>
      items s' = items two_families \<and>
      length new_families \<le> 1 \<and> length new_users \<le> 1)"
proof -
  let ?m = "start_message ''/start invite_cafebabe''"
  let ?bob = "\<lparr>tg_id = 300, tg_username = Some ''bob''\<rparr>"
  have sender: "m_from_user ?m = Some ?bob"
    by (simp add: start_message_def stranger_def)
  have content: "m_text ?m = Some ''/start invite_cafebabe''"
    by (simp add: start_message_def)
  have words: "str_split ''/start invite_cafebabe'' = ''/start'' # ''invite_cafebabe'' # []"
    by (simp add: str_split_def isspace_def)
  have marker: "startswith ''invite_cafebabe'' ''invite_''"
    by simp
  have nobody: "select_family_by_code two_families
      (str_replace ''invite_cafebabe'' ''invite_'' '''') = None"
    by (simp add: str_replace_def select_family_by_code_def two_families_def)
  from unknown_code_falls_back [OF sender content words marker nobody,
      of "''0f1e2d3c4b5a49788796a5b4c3d2e1f0''"]
  have "\<exists>failure s' new_families new_users.
      cmd_start two_families ?m ''0f1e2d3c4b5a49788796a5b4c3d2e1f0'' =
        (failure, [Invalid_invite_code], s') \<and>
      families s' = families two_families @ new_families \<and>
      users s' = users two_families @ new_users \<and>
      items s' = items two_families \<and>
      length new_families \<le> 1 \<and> length new_users \<le> 1"
    by blast
  with sender words marker nobody show ?thesis by simp
qed

subsection \<open>C8: the marker is removed wherever it occurs\<close>

text \<open>
  Claim C8 asks that for an argument \<open>invite_<code>\<close> the family is looked up with
  exactly \<open><code>\<close>, also when the code contains the marker. \<open>cmd_start\<close> removes
  the marker with \<open>str.replace\<close>, which removes every occurrence. For the argument
  \<open>invite_deadinvite_beef\<close> the code is \<open>deadinvite_beef\<close>, the invite code of no
  family; the lookup is made with \<open>deadbeef\<close>, and the sender joins the family with
  that code instead of being told that the code is wrong. (The marker at the front is
  always removed, and a code in which the marker does not occur is looked up as it is:
  \<open>marker_prefix_removed\<close>, \<open>marker_free_code_kept\<close>.)
\<close>

theorem cmd_start_strips_inner_marker:
  "str_split ''/start invite_deadinvite_beef'' = [''/start'', ''invite_deadinvite_beef''] \<and>
   str_replace ''invite_deadinvite_beef'' ''invite_'' '''' = ''deadbeef'' \<and>
   select_family_by_code lone_family ''deadinvite_beef'' = None \<and>
   select_family_by_code lone_family ''deadbeef'' =
     Some \<lparr>f_id = 1, f_invite_code = ''deadbeef''\<rparr> \<and>
   cmd_start lone_family (start_message ''/start invite_deadinvite_beef'')
     ''0f1e2d3c4b5a49788796a5b4c3d2e1f0'' =
     (None, [Welcome_joined],
      lone_family\<lparr>users := users lone_family @
        [\<lparr>u_telegram_id = 300, u_username = Some ''bob'', u_family_id = 1\<rparr>]\<rparr>)"
proof -
  have words: "str_split ''/start invite_deadinvite_beef'' =
      [''/start'', ''invite_deadinvite_beef'']"
    by (simp add: str_split_def isspace_def)
  have code: "str_replace ''invite_deadinvite_beef'' ''invite_'' '''' = ''deadbeef''"
    by (simp add: str_replace_def)
  have lookups:
    "select_family_by_code lone_family ''deadinvite_beef'' = None"
    "select_family_by_code lone_family ''deadbeef'' =
       Some \<lparr>f_id = 1, f_invite_code = ''deadbeef''\<rparr>"
    by (simp_all add: select_family_by_code_def lone_family_def)
  have joined: "cmd_start lone_family (start_message ''/start invite_deadinvite_beef'')
      ''0f1e2d3c4b5a49788796a5b4c3d2e1f0'' =
      (None, [Welcome_joined],
       lone_family\<lparr>users := users lone_family @
         [\<lparr>u_telegram_id = 300, u_username = Some ''bob'', u_family_id = 1\<rparr>]\<rparr>)"
    by (simp add: cmd_start_def start_message_def stranger_def lone_family_def str_split_def
          isspace_def str_replace_def select_family_by_code_def select_user_def
          insert_user_def family_exists_def Let_def)
  from words code lookups joined show ?thesis by simp
qed

subsection \<open>C9: a collision of invite codes\<close>

text \<open>
  Claim C9, as amended. For an external id without a user row: if the first eight
  characters of the generated uuid are the invite code of a family, the call ends with
  the store's \<open>IntegrityError\<close>, which reaches the caller, and the store is unchanged;
  no second code is generated. If they are not, the call succeeds, the one family it
  appends carries exactly this code, and no family that was there has it.
\<close>

theorem invite_code_collision_raises:
  assumes "select_user s telegram_id = None"
  shows "(take 8 uuid4_hex \<in> set (map f_invite_code (families s)) \<longrightarrow>
            ensure_user_and_family s telegram_id username uuid4_hex = (Inl IntegrityError, s)) \<and>
         (take 8 uuid4_hex \<notin> set (map f_invite_code (families s)) \<longrightarrow>
            (\<exists>user s'.
               ensure_user_and_family s telegram_id username uuid4_hex = (Inr user, s') \<and>
               families s' = families s @
                 [\<lparr>f_id = next_family_id s, f_invite_code = take 8 uuid4_hex\<rparr>] \<and>
               (\<forall>f \<in> set (families s). f_invite_code f \<noteq> take 8 uuid4_hex)))"
proof (intro conjI impI)
  assume "take 8 uuid4_hex \<in> set (map f_invite_code (families s))"
  with assms show "ensure_user_and_family s telegram_id username uuid4_hex =
      (Inl IntegrityError, s)"
    by (rule ensure_collision)
next
  assume free: "take 8 uuid4_hex \<notin> set (map f_invite_code (families s))"
  then have "\<forall>f \<in> set (families s). f_invite_code f \<noteq> take 8 uuid4_hex"
    by (auto simp: image_iff)
  with ensure_new [OF assms free, of username]
  show "\<exists>user s'.
      ensure_user_and_family s telegram_id username uuid4_hex = (Inr user, s') \<and>
      families s' = families s @
        [\<lparr>f_id = next_family_id s, f_invite_code = take 8 uuid4_hex\<rparr>] \<and>
      (\<forall>f \<in> set (families s). f_invite_code f \<noteq> take 8 uuid4_hex)"
    by simp
qed

theorem invite_code_collision_raises_witness:
  "select_user with_item 300 = None \<and>
   take 8 ''deadbeef0123456789abcdef01234567'' \<in> set (map f_invite_code (families with_item)) \<and>
   ensure_user_and_family with_item 300 None ''deadbeef0123456789abcdef01234567'' =
     (Inl IntegrityError, with_item) \<and>
   take 8 ''0f1e2d3c4b5a49788796a5b4c3d2e1f0'' \<notin> set (map f_invite_code (families with_item)) \<and>
   (\<exists>user s'.
      ensure_user_and_family with_item 300 None ''0f1e2d3c4b5a49788796a5b4c3d2e1f0'' =
        (Inr user, s') \<and>
      families s' = families with_item @ [\<lparr>f_id = 3, f_invite_code = ''0f1e2d3c''\<rparr>])"
proof -
  have unknown: "select_user with_item 300 = None"
    by (simp add: select_user_def with_item_def two_families_def)
  have taken: "take 8 ''deadbeef0123456789abcdef01234567'' \<in>
      set (map f_invite_code (families with_item))"
    by (simp add: with_item_def two_families_def)
  have free: "take 8 ''0f1e2d3c4b5a49788796a5b4c3d2e1f0'' \<notin>
      set (map f_invite_code (families with_item))"
    by (simp add: with_item_def two_families_def)
  have next_id: "next_family_id with_item = 3"
    by (simp add: next_family_id_def with_item_def two_families_def)
  from invite_code_collision_raises
         [OF unknown, of "''deadbeef0123456789abcdef01234567''" None] taken
  have raised: "ensure_user_and_family with_item 300 None ''deadbeef0123456789abcdef01234567'' =
      (Inl IntegrityError, with_item)"
    by blast
  from invite_code_collision_raises
         [OF unknown, of "''0f1e2d3c4b5a49788796a5b4c3d2e1f0''" None] free next_id
  have "\<exists>user s'.
      ensure_user_and_family with_item 300 None ''0f1e2d3c4b5a49788796a5b4c3d2e1f0'' =
        (Inr user, s') \<and>
      families s' = families with_item @ [\<lparr>f_id = 3, f_invite_code = ''0f1e2d3c''\<rparr>]"
    by auto
  with unknown taken free raised show ?thesis by blast
qed

text \<open>
  Claim C9 as it is written fails: the caller 300 is unknown, the uuid starts with
  the invite code of the first of the two families, and the call ends with
  \<open>IntegrityError\<close> instead of a user, with no row written.
\<close>

theorem invite_code_collision_counterexample:
  "select_user two_families 300 = None \<and>
   take 8 ''0a1b2c3d5e6f4a7b8c9d0e1f2a3b4c5d'' \<in> set (map f_invite_code (families two_families)) \<and>
   ensure_user_and_family two_families 300 (Some ''bob'') ''0a1b2c3d5e6f4a7b8c9d0e1f2a3b4c5d'' =
     (Inl IntegrityError, two_families)"
  by (simp add: ensure_user_and_family_def insert_family_def select_user_def two_families_def)

subsection \<open>C10: an update never writes a null\<close>

text \<open>
  Claim C10. \<open>PUT /items/{item_id}\<close> does with a body in which a field is \<open>null\<close>
  what it does with the body in which that field is absent, for each of the three
  fields. For a caller with a user row and an item of the caller's family, each field
  of the returned item is the value the request carries when it carries one, and the
  value before otherwise. Whatever the request and whoever the caller, the table has as
  many rows afterwards as before, and a row whose text, bought flag or category was not
  null before has it not null afterwards.
\<close>

theorem update_item_null_is_absent:
  "update_item s item_id (parse_ItemUpdate (body\<lparr>b_text := Null\<rparr>)) telegram_id =
   update_item s item_id (parse_ItemUpdate (body\<lparr>b_text := Absent\<rparr>)) telegram_id \<and>
   update_item s item_id (parse_ItemUpdate (body\<lparr>b_is_bought := Null\<rparr>)) telegram_id =
   update_item s item_id (parse_ItemUpdate (body\<lparr>b_is_bought := Absent\<rparr>)) telegram_id \<and>
   update_item s item_id (parse_ItemUpdate (body\<lparr>b_category := Null\<rparr>)) telegram_id =
   update_item s item_id (parse_ItemUpdate (body\<lparr>b_category := Absent\<rparr>)) telegram_id \<and>
   (\<forall>user item. select_user s telegram_id = Some user \<and>
       select_item s item_id (u_family_id user) = Some item \<longrightarrow>
       (\<exists>item' s'. update_item s item_id updates telegram_id = (Inr item', s') \<and>
          i_text item' = (case p_text updates of None \<Rightarrow> i_text item | Some v \<Rightarrow> Some v) \<and>
          i_is_bought item' =
            (case p_is_bought updates of None \<Rightarrow> i_is_bought item | Some v \<Rightarrow> Some v) \<and>
          i_category item' =
            (case p_category updates of None \<Rightarrow> i_category item | Some v \<Rightarrow> Some v))) \<and>
   length (items (snd (update_item s item_id updates telegram_id))) = length (items s) \<and>
   (\<forall>n < length (items s).
      (i_text (items s ! n) \<noteq> None \<longrightarrow>
         i_text (items (snd (update_item s item_id updates telegram_id)) ! n) \<noteq> None) \<and>
      (i_is_bought (items s ! n) \<noteq> None \<longrightarrow>
         i_is_bought (items (snd (update_item s item_id updates telegram_id)) ! n) \<noteq> None) \<and>
      (i_category (items s ! n) \<noteq> None \<longrightarrow>
         i_category (items (snd (update_item s item_id updates telegram_id)) ! n) \<noteq> None))"
proof -
  have null_absent:
    "parse_ItemUpdate (body\<lparr>b_text := Null\<rparr>) = parse_ItemUpdate (body\<lparr>b_text := Absent\<rparr>)"
    "parse_ItemUpdate (body\<lparr>b_is_bought := Null\<rparr>) =
       parse_ItemUpdate (body\<lparr>b_is_bought := Absent\<rparr>)"
    "parse_ItemUpdate (body\<lparr>b_category := Null\<rparr>) =
       parse_ItemUpdate (body\<lparr>b_category := Absent\<rparr>)"
    by (simp_all add: parse_ItemUpdate_def)
  have applied: "\<forall>user item. select_user s telegram_id = Some user \<and>
       select_item s item_id (u_family_id user) = Some item \<longrightarrow>
       (\<exists>item' s'. update_item s item_id updates telegram_id = (Inr item', s') \<and>
          i_text item' = (case p_text updates of None \<Rightarrow> i_text item | Some v \<Rightarrow> Some v) \<and>
          i_is_bought item' =
            (case p_is_bought updates of None \<Rightarrow> i_is_bought item | Some v \<Rightarrow> Some v) \<and>
          i_category item' =
            (case p_category updates of None \<Rightarrow> i_category item | Some v \<Rightarrow> Some v))"
    by (simp add: update_item_found apply_updates_fields)
  let ?rows = "items (snd (update_item s item_id updates telegram_id))"
  have len: "length ?rows = length (items s)"
    using items_after_update [of s item_id updates telegram_id] by auto
  have kept: "\<forall>n < length (items s).
      (i_text (items s ! n) \<noteq> None \<longrightarrow> i_text (?rows ! n) \<noteq> None) \<and>
      (i_is_bought (items s ! n) \<noteq> None \<longrightarrow> i_is_bought (?rows ! n) \<noteq> None) \<and>
      (i_category (items s ! n) \<noteq> None \<longrightarrow> i_category (?rows ! n) \<noteq> None)"
    using items_after_update [of s item_id updates telegram_id]
    by (auto simp: apply_updates_fields split: option.splits)
  show ?thesis
    using null_absent applied len kept by simp
qed

theorem update_item_null_is_absent_witness:
  "select_user with_item 200 =
     Some \<lparr>u_telegram_id = 200, u_username = None, u_family_id = 2\<rparr> \<and>
   select_item with_item ''x1'' 2 =
     Some \<lparr>i_id = ''x1'', i_text = Some ''Milk'', i_is_bought = Some False,
           i_category = Some ''dairy'', i_family_id = 2\<rparr> \<and>
   (\<exists>item' s'.
      update_item with_item ''x1''
        \<lparr>p_text = None, p_is_bought = Some True, p_category = None\<rparr> 200 = (Inr item', s') \<and>
      i_text item' = Some ''Milk'' \<and> i_is_bought item' = Some True \<and>
      i_category item' = Some ''dairy'') \<and>
   update_item with_item ''x1''
     (parse_ItemUpdate \<lparr>b_text = Null, b_is_bought = Value True, b_category = Absent\<rparr>) 200 =
   update_item with_item ''x1''
     (parse_ItemUpdate \<lparr>b_text = Absent, b_is_bought = Value True, b_category = Absent\<rparr>) 200 \<and>
   i_text (items (snd (update_item with_item ''x1''
     \<lparr>p_text = None, p_is_bought = Some True, p_category = None\<rparr> 200)) ! 0) \<noteq> None"
proof -
  let ?milk = "\<lparr>i_id = ''x1'', i_text = Some ''Milk'', i_is_bought = Some False,
                 i_category = Some ''dairy'', i_family_id = 2\<rparr>"
  let ?caller = "\<lparr>u_telegram_id = 200, u_username = None, u_family_id = 2\<rparr>"
  let ?upd = "\<lparr>p_text = None, p_is_bought = Some True, p_category = None\<rparr>"
  let ?body = "\<lparr>b_text = Absent, b_is_bought = Value True, b_category = Absent\<rparr>"
  note claim = update_item_null_is_absent [of with_item "''x1''" ?body 200 ?upd]
  have caller: "select_user with_item 200 = Some ?caller"
    by (simp add: select_user_def with_item_def two_families_def)
  have target: "select_item with_item ''x1'' 2 = Some ?milk"
    by (simp add: select_item_def with_item_def)
  have rows: "length (items with_item) = 1" "i_text (items with_item ! 0) \<noteq> None"
    by (simp_all add: with_item_def)
  from claim caller target
  have applied: "\<exists>item' s'.
      update_item with_item ''x1'' ?upd 200 = (Inr item', s') \<and>
      i_text item' = Some ''Milk'' \<and> i_is_bought item' = Some True \<and>
      i_category item' = Some ''dairy''"
    by auto
  from claim
  have same: "update_item with_item ''x1''
      (parse_ItemUpdate \<lparr>b_text = Null, b_is_bought = Value True, b_category = Absent\<rparr>) 200 =
    update_item with_item ''x1'' (parse_ItemUpdate ?body) 200"
    by simp
  from claim rows
  have kept: "i_text (items (snd (update_item with_item ''x1'' ?upd 200)) ! 0) \<noteq> None"
    by auto
  from caller target applied same kept show ?thesis by simp
qed

end
